theory Spec2Isabelle
  imports Main
begin

section \<open>The /sparql request handler\<close>

subsection \<open>Requests, responses and configuration\<close>

text \<open>
  A body handed to \<^verbatim>\<open>res.send\<close> is either a string (sent as text) or an object
  (sent as JSON); the object's values that occur in the handler are strings.
\<close>

datatype payload = Text string | Json "(string \<times> string) list"

text \<open>
  A response as the handler builds it: the status (200 unless \<^verbatim>\<open>res.status\<close> is called),
  the headers set by \<^verbatim>\<open>res.header\<close> in the order of the calls, and the body given to
  \<^verbatim>\<open>res.send\<close>.
\<close>

record response =
  res_status :: nat
  res_headers :: "(string \<times> string) list"
  res_body :: payload

text \<open>
  The body parsers leave a string in \<^verbatim>\<open>req.body\<close> for the content type
  \<^verbatim>\<open>application/sparql-query\<close> (the only case where \<^verbatim>\<open>req.is\<close> of that type holds) and
  an object of form fields otherwise.
\<close>

datatype req_body = SparqlQueryBody string | FormBody "(string \<times> string) list"

record request =
  req_method :: string
  req_query :: "(string \<times> string) list"
  req_body :: req_body
  req_accept :: "string option"
  req_ip :: string

record config =
  backend :: "string option"
  adminUser :: string
  adminPassword :: string
  compressor :: string
  jobTimeout :: nat
  enableQuerySplitting :: bool
  maxChunkLimit :: nat
  maxLimit :: nat
  queryLogPath :: "string option"

subsection \<open>External collaborators\<close>

text \<open>
  The preamble splitter, the SPARQL parser and generator and the MD5 function belong to
  libraries; the handler is modelled over any choice of them. A parse failure is \<open>Inl\<close> of
  the exception's message. \<open>md5\<close> maps the bytes fed to the hash to the hexadecimal digest.
\<close>

record 'ast sparql =
  splitPreamble :: "string \<Rightarrow> string \<times> string"
  parse :: "string \<Rightarrow> string + 'ast"
  ast_type :: "'ast \<Rightarrow> string"
  stringify :: "'ast \<Rightarrow> string"
  md5 :: "string \<Rightarrow> string"

text \<open>
  \<^verbatim>\<open>crypto.createHash('md5').update(a).update(b).digest('hex')\<close>: the hash object collects
  the bytes of every update, and the digest is taken of all of them.
\<close>

type_synonym hash = string

definition createHash :: hash where
  "createHash = []"

definition hash_update :: "hash \<Rightarrow> string \<Rightarrow> hash" where
  "hash_update h s = h @ s"

definition digest_hex :: "'ast sparql \<Rightarrow> hash \<Rightarrow> string" where
  "digest_hex d h = md5 d h"

record cache_entry =
  contentType :: string
  body :: string

text \<open>
  A cache store over its own state \<open>'s\<close>. \<open>cache_get\<close> is \<open>Inl\<close> when the promise is
  rejected, \<open>Inr None\<close> for \<^verbatim>\<open>null\<close>; \<open>cache_put\<close> returns the rejection, if any, and the
  state it leaves.
\<close>

record 's cache_store =
  cache_get :: "'s \<Rightarrow> string \<Rightarrow> string + cache_entry option"
  cache_put :: "'s \<Rightarrow> string \<Rightarrow> cache_entry \<Rightarrow> string option \<times> 's"

record job =
  job_backend :: "string option"
  rawQuery :: string
  job_accept :: string
  timeout :: nat
  job_ip :: string
  job_enableQuerySplitting :: bool
  job_maxLimit :: nat
  job_maxChunkLimit :: nat

record job_error =
  statusCode :: "nat option"
  data :: "payload option"

text \<open>
  \<^verbatim>\<open>queue.enqueue(job, token)\<close> over the queue's state \<open>'q\<close>: the awaited promise resolves
  with the job's result or is rejected with an error.
\<close>

type_synonym 'q enqueue = "'q \<Rightarrow> job \<Rightarrow> string option \<Rightarrow> (job_error + cache_entry) \<times> 'q"

subsection \<open>Effects of one request\<close>

record log_entry =
  log_query :: string
  cache_hit :: bool
  log_content_type :: string
  log_body :: string

datatype event =
    CacheGet string
  | CachePut string cache_entry
  | Enqueue job "string option"
  | Send response
  | AppendLog string log_entry

text \<open>JavaScript's \<open>x || d\<close> on an optional string: \<^verbatim>\<open>undefined\<close>, \<^verbatim>\<open>null\<close> and \<^verbatim>\<open>''\<close> are falsy.\<close>

definition truthy :: "string option \<Rightarrow> bool" where
  "truthy x = (case x of None \<Rightarrow> False | Some s \<Rightarrow> s \<noteq> [])"

definition js_or :: "string option \<Rightarrow> string \<Rightarrow> string" where
  "js_or x d = (if truthy x then the x else d)"

definition log :: "config \<Rightarrow> log_entry \<Rightarrow> event list" where
  "log cfg entry = (if truthy (queryLogPath cfg) then [AppendLog (the (queryLogPath cfg)) entry] else [])"

subsection \<open>Extracting the query (the switch on the method)\<close>

datatype extracted = Query "string option" | NoReply | Reply response

definition extract_query :: "request \<Rightarrow> extracted" where
  "extract_query req =
     (if req_method req = ''GET'' then Query (map_of (req_query req) ''query'')
      else if req_method req = ''POST'' then
        (case req_body req of
           SparqlQueryBody b \<Rightarrow> Query (Some b)
         | FormBody f \<Rightarrow> Query (map_of f ''query''))
      else if req_method req = ''OPTIONS'' then NoReply
      else Reply \<lparr>res_status = 405, res_headers = [], res_body = Text ''Method Not Allowed''\<rparr>)"

subsection \<open>Normalisation and the cache key\<close>

record normalized =
  query :: string
  accept :: string
  cacheKey :: string

definition default_accept :: string where
  "default_accept = ''application/sparql-results+json''"

definition accept_of :: "config \<Rightarrow> request \<Rightarrow> string" where
  "accept_of cfg req =
     js_or (if enableQuerySplitting cfg then None else req_accept req) default_accept"

text \<open>
  The handler up to the cache key. \<open>Inl None\<close> is a return without a response (the
  \<^verbatim>\<open>OPTIONS\<close> case only sets the status), \<open>Inl (Some r)\<close> a return after sending \<open>r\<close>.
\<close>

definition normalizeQuery :: "'ast sparql \<Rightarrow> config \<Rightarrow> request \<Rightarrow> response option + normalized" where
  "normalizeQuery d cfg req =
     (case extract_query req of
        NoReply \<Rightarrow> Inl None
      | Reply r \<Rightarrow> Inl (Some r)
      | Query q \<Rightarrow>
          if \<not> truthy q then
            Inl (Some \<lparr>res_status = 400, res_headers = [],
                       res_body = Json [(''message'', ''Query is required'')]\<rparr>)
          else
            (case splitPreamble d (the q) of (preamble, compatibleQuery) \<Rightarrow>
              (case parse d compatibleQuery of
                 Inl message \<Rightarrow>
                   Inl (Some \<lparr>res_status = 400, res_headers = [],
                              res_body = Json [(''message'', ''Query parse failed''), (''data'', message)]\<rparr>)
               | Inr parsedQuery \<Rightarrow>
                   if ast_type d parsedQuery \<noteq> ''query'' then
                     Inl (Some \<lparr>res_status = 400, res_headers = [],
                                res_body = Text ''Query type not allowed''\<rparr>)
                   else
                     (let normalizedQuery = preamble @ stringify d parsedQuery;
                          acc = accept_of cfg req;
                          digest = digest_hex d
                            (hash_update (hash_update (hash_update createHash normalizedQuery) [CHR 0x00]) acc);
                          key = digest @ ''.'' @ compressor cfg
                      in Inr \<lparr>query = the q, accept = acc, cacheKey = key\<rparr>))))"

subsection \<open>Cache lookup, the job and the reply\<close>

definition make_job :: "config \<Rightarrow> request \<Rightarrow> normalized \<Rightarrow> job" where
  "make_job cfg req n =
     \<lparr>job_backend = backend cfg,
      rawQuery = query n,
      job_accept = accept n,
      timeout = jobTimeout cfg,
      job_ip = req_ip req,
      job_enableQuerySplitting = enableQuerySplitting cfg,
      job_maxLimit = maxLimit cfg,
      job_maxChunkLimit = maxChunkLimit cfg\<rparr>"

text \<open>\<^verbatim>\<open>error.statusCode || 500\<close> and \<^verbatim>\<open>error.data || 'ERROR'\<close>.\<close>

definition error_status :: "job_error \<Rightarrow> nat" where
  "error_status e = (case statusCode e of None \<Rightarrow> 500 | Some c \<Rightarrow> if c = 0 then 500 else c)"

definition error_body :: "job_error \<Rightarrow> payload" where
  "error_body e =
     (case data e of None \<Rightarrow> Text ''ERROR'' | Some (Text t) \<Rightarrow> if t = [] then Text ''ERROR'' else Text t
      | Some (Json j) \<Rightarrow> Json j)"

text \<open>
  The second \<^verbatim>\<open>try\<close> block: enqueue the job and await it; on success reply, log and
  write the result behind to the cache, where a rejected \<^verbatim>\<open>put\<close> is caught by the inner
  \<^verbatim>\<open>catch\<close>; on a rejected job reply with its status and data.
\<close>

definition run_job ::
  "config \<Rightarrow> 's cache_store \<Rightarrow> 'q enqueue \<Rightarrow> 's \<Rightarrow> 'q \<Rightarrow> request \<Rightarrow> normalized
     \<Rightarrow> event list \<times> 's \<times> 'q" where
  "run_job cfg c enq s qs req n =
     (let token = map_of (req_query req) ''token'';
          j = make_job cfg req n
      in case enq qs j token of
           (Inr result, qs') \<Rightarrow>
             (case cache_put c s (cacheKey n) result of
                (_, s') \<Rightarrow>
                  ([Enqueue j token,
                    Send \<lparr>res_status = 200,
                          res_headers = [(''Content-Type'', contentType result)],
                          res_body = Text (body result)\<rparr>]
                   @ log cfg \<lparr>log_query = query n, cache_hit = False,
                               log_content_type = contentType result, log_body = body result\<rparr>
                   @ [CachePut (cacheKey n) result],
                   s', qs'))
         | (Inl error, qs') \<Rightarrow>
             ([Enqueue j token,
               Send \<lparr>res_status = error_status error, res_headers = [], res_body = error_body error\<rparr>],
              s, qs'))"

text \<open>
  The whole handler. The first \<^verbatim>\<open>try\<close> block replies from the cache when \<^verbatim>\<open>get\<close> yields
  an entry; \<^verbatim>\<open>null\<close> and a rejection (caught and logged) both fall through to the job.
\<close>

definition handle ::
  "'ast sparql \<Rightarrow> config \<Rightarrow> 's cache_store \<Rightarrow> 'q enqueue \<Rightarrow> 's \<Rightarrow> 'q \<Rightarrow> request
     \<Rightarrow> event list \<times> 's \<times> 'q" where
  "handle d cfg c enq s qs req =
     (case normalizeQuery d cfg req of
        Inl None \<Rightarrow> ([], s, qs)
      | Inl (Some r) \<Rightarrow> ([Send r], s, qs)
      | Inr n \<Rightarrow>
          (case cache_get c s (cacheKey n) of
             Inr (Some cached) \<Rightarrow>
               ([CacheGet (cacheKey n),
                 Send \<lparr>res_status = 200,
                       res_headers = [(''Content-Type'', contentType cached), (''X-Cache'', ''hit'')],
                       res_body = Text (body cached)\<rparr>]
                @ log cfg \<lparr>log_query = query n, cache_hit = True,
                            log_content_type = contentType cached, log_body = body cached\<rparr>,
                s, qs)
           | Inr None \<Rightarrow>
               (case run_job cfg c enq s qs req n of
                  (es, s', qs') \<Rightarrow> (CacheGet (cacheKey n) # es, s', qs'))
           | Inl error \<Rightarrow>
               (case run_job cfg c enq s qs req n of
                  (es, s', qs') \<Rightarrow> (CacheGet (cacheKey n) # es, s', qs'))))"

text \<open>What a trace of effects shows to the client and to the queue.\<close>

fun sent :: "event list \<Rightarrow> response list" where
  "sent [] = []"
| "sent (Send r # es) = r # sent es"
| "sent (e # es) = sent es"

fun enqueued :: "event list \<Rightarrow> (job \<times> string option) list" where
  "enqueued [] = []"
| "enqueued (Enqueue j t # es) = (j, t) # enqueued es"
| "enqueued (e # es) = enqueued es"

fun cache_writes :: "event list \<Rightarrow> (string \<times> cache_entry) list" where
  "cache_writes [] = []"
| "cache_writes (CachePut k v # es) = (k, v) # cache_writes es"
| "cache_writes (e # es) = cache_writes es"

definition without_header :: "string \<Rightarrow> response \<Rightarrow> response" where
  "without_header name r = r\<lparr>res_headers := filter (\<lambda>h. fst h \<noteq> name) (res_headers r)\<rparr>"

subsection \<open>Instances for running the model\<close>

text \<open>
  A small stand-in for the libraries, used to run the handler on concrete requests: no
  preamble is split off, a text starting with \<^verbatim>\<open>SELECT\<close> parses to a query, one starting
  with \<^verbatim>\<open>INSERT\<close> to an update, anything else fails to parse, and the digest of a byte
  string is the byte string itself.
\<close>

datatype example_ast = Ast string string

definition example_sparql :: "example_ast sparql" where
  "example_sparql =
     \<lparr>splitPreamble = (\<lambda>q. ([], q)),
      parse = (\<lambda>q. if take 6 q = ''SELECT'' then Inr (Ast ''query'' q)
                   else if take 6 q = ''INSERT'' then Inr (Ast ''update'' q)
                   else Inl ''Parse error''),
      ast_type = (\<lambda>a. case a of Ast t _ \<Rightarrow> t),
      stringify = (\<lambda>a. case a of Ast _ q \<Rightarrow> q),
      md5 = (\<lambda>bytes. bytes)\<rparr>"

definition example_config :: config where
  "example_config =
     \<lparr>backend = Some ''http://localhost/sparql'', adminUser = ''admin'', adminPassword = ''password'',
      compressor = ''raw'', jobTimeout = 300000, enableQuerySplitting = False,
      maxChunkLimit = 1000, maxLimit = 10000, queryLogPath = None\<rparr>"

text \<open>
  Modelled from the spec: the memory store (the cache module that holds it is not among the
  sources), a process-local mapping from key to entry.
\<close>

definition memory_store :: "(string \<rightharpoonup> cache_entry) cache_store" where
  "memory_store =
     \<lparr>cache_get = (\<lambda>s key. Inr (s key)),
      cache_put = (\<lambda>s key v. (None, s(key \<mapsto> v)))\<rparr>"

definition no_entries :: "string \<rightharpoonup> cache_entry" where
  "no_entries = Map.empty"

text \<open>A store whose every operation is rejected.\<close>

definition failing_store :: "unit cache_store" where
  "failing_store =
     \<lparr>cache_get = (\<lambda>s key. Inl ''EIO''),
      cache_put = (\<lambda>s key v. (Some ''EIO'', s))\<rparr>"

text \<open>A queue that runs every job at once and answers with one binding-free result.\<close>

definition example_enqueue :: "(job list) enqueue" where
  "example_enqueue qs j token =
     (Inr \<lparr>contentType = ''application/sparql-results+json'', body = ''{}''\<rparr>, qs @ [j])"

definition get_request :: "string \<Rightarrow> string option \<Rightarrow> request" where
  "get_request q a =
     \<lparr>req_method = ''GET'', req_query = [(''query'', q)], req_body = FormBody [],
      req_accept = a, req_ip = ''127.0.0.1''\<rparr>"

section \<open>The filesystem cache stores\<close>

subsection \<open>Node's \<^verbatim>\<open>path.join\<close> (POSIX)\<close>

text \<open>The pieces of a path between its slashes, empty pieces included.\<close>

fun segments :: "string \<Rightarrow> string list" where
  "segments [] = [[]]"
| "segments (c # cs) =
     (if c = CHR ''/'' then [] # segments cs
      else (case segments cs of [] \<Rightarrow> [[c]] | s # ss \<Rightarrow> (c # s) # ss))"

text \<open>
  \<^verbatim>\<open>normalizeString\<close>: empty and \<^verbatim>\<open>.\<close> segments are dropped, \<^verbatim>\<open>..\<close> removes the segment
  before it, and is kept only where nothing is left to remove and the path is relative.
\<close>

fun normalizeString :: "bool \<Rightarrow> string list \<Rightarrow> string list \<Rightarrow> string list" where
  "normalizeString allowAboveRoot res [] = res"
| "normalizeString allowAboveRoot res (s # ss) =
     (if s = [] \<or> s = ''.'' then normalizeString allowAboveRoot res ss
      else if s = ''..'' then
        (if res \<noteq> [] \<and> last res \<noteq> ''..'' then normalizeString allowAboveRoot (butlast res) ss
         else if allowAboveRoot then normalizeString allowAboveRoot (res @ [''..'']) ss
         else normalizeString allowAboveRoot res ss)
      else normalizeString allowAboveRoot (res @ [s]) ss)"

fun join_slash :: "string list \<Rightarrow> string" where
  "join_slash [] = []"
| "join_slash [s] = s"
| "join_slash (s # ss) = s @ ''/'' @ join_slash ss"

definition path_normalize :: "string \<Rightarrow> string" where
  "path_normalize p =
     (if p = [] then ''.''
      else
        (let isAbsolute = (hd p = CHR ''/'');
             trailingSeparator = (last p = CHR ''/'');
             r = join_slash (normalizeString (\<not> isAbsolute) [] (segments p))
         in if r = [] then (if isAbsolute then ''/'' else if trailingSeparator then ''./'' else ''.'')
            else (if isAbsolute then ''/'' else []) @ r @ (if trailingSeparator then ''/'' else [])))"

definition path_join :: "string list \<Rightarrow> string" where
  "path_join args =
     (let joined = filter (\<lambda>a. a \<noteq> []) args
      in if joined = [] then ''.'' else path_normalize (join_slash joined))"

text \<open>Absolute paths built from their segments, and segments that normalisation leaves alone.\<close>

definition abs_path :: "string list \<Rightarrow> string" where
  "abs_path segs = concat (map (\<lambda>s. CHR ''/'' # s) segs)"

definition plain_segment :: "string \<Rightarrow> bool" where
  "plain_segment s = (s \<noteq> [] \<and> CHR ''/'' \<notin> set s \<and> s \<noteq> ''.'' \<and> s \<noteq> ''..'')"

subsection \<open>Read errors\<close>

record js_error =
  err_code :: "string option"
  err_message :: string


subsection \<open>A file system for running the stores\<close>










subsection \<open>The store that wraps a compressor\<close>

text \<open>
  The class extending \<^verbatim>\<open>Base\<close>. Its root directory is \<^verbatim>\<open>env.CACHE_STORE_PATH\<close> or the
  default; \<^verbatim>\<open>deserialize\<close> is inherited from \<^verbatim>\<open>Base\<close> and is a parameter here, as is
  the answer of \<^verbatim>\<open>fs.readFile\<close>.
\<close>

definition file_store_rootDir :: "string option \<Rightarrow> string" where
  "file_store_rootDir cache_store_path = js_or cache_store_path ''/tmp/sparql-proxy/cache''"

definition file_store_getPath :: "string \<Rightarrow> string \<Rightarrow> string" where
  "file_store_getPath rootDir key = path_join [rootDir, take 2 key, take 2 (drop 2 key), key]"


subsection \<open>The store of raw values\<close>

text \<open>
  The class without a compressor. Its constructor throws when \<^verbatim>\<open>CACHE_STORE_PATH\<close> is not
  set. \<^verbatim>\<open>key[0]\<close> and \<^verbatim>\<open>key[1]\<close> are \<^verbatim>\<open>undefined\<close> on a shorter key, which \<^verbatim>\<open>path.join\<close>
  rejects with a \<^verbatim>\<open>TypeError\<close>.
\<close>

definition raw_store_rootDir :: "string option \<Rightarrow> js_error + string" where
  "raw_store_rootDir cache_store_path =
     (if truthy cache_store_path then Inr (the cache_store_path)
      else Inl \<lparr>err_code = None, err_message = ''Please set CACHE_STORE_PATH environment variable''\<rparr>)"

definition raw_store_getPath :: "string \<Rightarrow> string \<Rightarrow> js_error + string" where
  "raw_store_getPath rootDir key =
     (if length key < 2 then Inl \<lparr>err_code = None, err_message = ''Path must be a string''\<rparr>
      else Inr (path_join [rootDir, [key ! 0], [key ! 1], key]))"



section \<open>The live channel's authentication\<close>

text \<open>
  \<^verbatim>\<open>cookie.parse\<close> throws a \<^verbatim>\<open>TypeError\<close> unless its argument is a string; how it splits
  a string into names and values is a parameter.
\<close>

definition cookie_parse ::
  "(string \<Rightarrow> (string \<times> string) list) \<Rightarrow> string option \<Rightarrow> js_error + (string \<times> string) list" where
  "cookie_parse pairs_of str =
     (case str of
        None \<Rightarrow> Inl \<lparr>err_code = None, err_message = ''argument str must be a string''\<rparr>
      | Some s \<Rightarrow> Inr (pairs_of s))"

definition secret :: "config \<Rightarrow> string" where
  "secret cfg = adminUser cfg @ '':'' @ adminPassword cfg"

definition cookieKey :: string where
  "cookieKey = ''sparql-proxy-token''"

text \<open>
  What the middleware given to \<^verbatim>\<open>io.use\<close> does with a handshake: call \<^verbatim>\<open>next()\<close>, call
  \<^verbatim>\<open>next\<close> with an error, or throw.
\<close>

datatype middleware_outcome = Next | NextError string | Thrown js_error

definition io_use_middleware ::
  "(string \<Rightarrow> (string \<times> string) list) \<Rightarrow> config \<Rightarrow> string option \<Rightarrow> middleware_outcome" where
  "io_use_middleware pairs_of cfg cookie_header =
     (case cookie_parse pairs_of cookie_header of
        Inl error \<Rightarrow> Thrown error
      | Inr cookies \<Rightarrow>
          (let secretProvided = map_of cookies cookieKey
           in if secretProvided = Some (secret cfg) then Next
              else NextError ''Authentication error''))"

section \<open>The chunk executor\<close>

text \<open>
  Modelled from the spec: the job module (\<^verbatim>\<open>./job\<close>), which holds the query-splitting
  executor, is not among the sources. The definitions follow section 4.D of the
  specification: the effective limit, the shard size, the sequential issuance of shards
  and the merge.
\<close>

record 'row solution_page =
  head :: "string list"
  bindings :: "'row list"

datatype exec_error = Cancelled | BackendError nat string

text \<open>The backend answers a shard, given as its \<^verbatim>\<open>LIMIT\<close> and its \<^verbatim>\<open>OFFSET\<close>.\<close>

type_synonym 'row shard_backend = "nat \<Rightarrow> nat \<Rightarrow> exec_error + 'row solution_page"

record select_query =
  userLimit :: "nat option"
  userOffset :: nat

datatype operation = Select select_query | Other

text \<open>
  Modelled from the spec: the effective limit is the smaller of the user's \<^verbatim>\<open>LIMIT\<close> (if any)
  and \<^verbatim>\<open>maxLimit\<close>.
\<close>

definition effectiveLimit :: "nat option \<Rightarrow> nat \<Rightarrow> nat" where
  "effectiveLimit ul ml = (case ul of None \<Rightarrow> ml | Some l \<Rightarrow> min l ml)"

definition collected :: "'row solution_page list \<Rightarrow> nat" where
  "collected pages = length (concat (map bindings pages))"

text \<open>
  Modelled from the spec: shard issuance. The loop runs while fewer rows than the effective limit are collected;
  before each shard the cancellation signal is checked (it is given by the number of shards
  issued so far); a backend error ends the job; a shard shorter than requested ends the
  stream. The first argument bounds the number of iterations: \<open>None\<close> is a loop that has not
  ended within it.
\<close>

fun issue_shards ::
  "nat \<Rightarrow> 'row shard_backend \<Rightarrow> (nat \<Rightarrow> bool) \<Rightarrow> nat \<Rightarrow> nat \<Rightarrow> nat \<Rightarrow> 'row solution_page list
     \<Rightarrow> (exec_error + 'row solution_page list) option" where
  "issue_shards 0 be cancelled chunk eff offset pages = None"
| "issue_shards (Suc fuel) be cancelled chunk eff offset pages =
     (if collected pages < eff then
        (if cancelled (length pages) then Some (Inl Cancelled)
         else
           (let limit = min chunk (eff - collected pages)
            in case be limit offset of
                 Inl e \<Rightarrow> Some (Inl e)
               | Inr page \<Rightarrow>
                   if length (bindings page) < limit then Some (Inr (pages @ [page]))
                   else issue_shards fuel be cancelled chunk eff (offset + chunk) (pages @ [page])))
      else Some (Inr pages))"

text \<open>
  Modelled from the spec: the merge. The first shard's head is the response head, and the
  bindings of all shards are concatenated in shard order.
\<close>

record 'row merged =
  merged_head :: "string list option"
  merged_bindings :: "'row list"

definition merge :: "'row solution_page list \<Rightarrow> 'row merged" where
  "merge pages =
     \<lparr>merged_head = (case pages of [] \<Rightarrow> None | p # _ \<Rightarrow> Some (head p)),
      merged_bindings = concat (map bindings pages)\<rparr>"

text \<open>
  Modelled from the spec: the shard size is the smaller of \<^verbatim>\<open>maxChunkLimit\<close> and the effective
  limit, and the first shard starts at the user's \<^verbatim>\<open>OFFSET\<close>.
\<close>

definition execute_split ::
  "nat \<Rightarrow> 'row shard_backend \<Rightarrow> (nat \<Rightarrow> bool) \<Rightarrow> nat \<Rightarrow> nat \<Rightarrow> select_query
     \<Rightarrow> (exec_error + 'row merged) option" where
  "execute_split fuel be cancelled ml mcl q =
     (let eff = effectiveLimit (userLimit q) ml;
          chunk = min mcl eff
      in case issue_shards fuel be cancelled chunk eff (userOffset q) [] of
           None \<Rightarrow> None
         | Some (Inl e) \<Rightarrow> Some (Inl e)
         | Some (Inr pages) \<Rightarrow> Some (Inr (merge pages)))"

text \<open>
  Modelled from the spec: the executor splits a \<^verbatim>\<open>SELECT\<close> when splitting is enabled; every other query is
  forwarded verbatim, with the result \<open>forwarded\<close>.
\<close>

definition chunk_executor ::
  "nat \<Rightarrow> 'row shard_backend \<Rightarrow> (exec_error + 'row merged) option \<Rightarrow> (nat \<Rightarrow> bool)
     \<Rightarrow> bool \<Rightarrow> nat \<Rightarrow> nat \<Rightarrow> operation \<Rightarrow> (exec_error + 'row merged) option" where
  "chunk_executor fuel be forwarded cancelled enabled ml mcl op =
     (case op of
        Select q \<Rightarrow> if enabled then execute_split fuel be cancelled ml mcl q else forwarded
      | Other \<Rightarrow> forwarded)"

text \<open>A run in which the cancellation signal is never raised.\<close>

definition never_cancelled :: "nat \<Rightarrow> bool" where
  "never_cancelled = (\<lambda>i. False)"

text \<open>A backend that holds the rows \<open>rows\<close> in a fixed order and answers every shard from them.\<close>

definition rows_backend :: "string list \<Rightarrow> 'row list \<Rightarrow> 'row shard_backend" where
  "rows_backend vars rows limit offset = Inr \<lparr>head = vars, bindings = take limit (drop offset rows)\<rparr>"

section \<open>Properties of the request handler\<close>

subsection \<open>Auxiliary facts\<close>

lemma normalizeQuery_accepted:
  assumes "extract_query req = Query (Some q)" and "q \<noteq> []"
    and "splitPreamble d q = (preamble, compatibleQuery)"
    and "parse d compatibleQuery = Inr parsedQuery"
    and "ast_type d parsedQuery = ''query''"
  shows "normalizeQuery d cfg req =
           Inr \<lparr>query = q, accept = accept_of cfg req,
                cacheKey = md5 d (preamble @ stringify d parsedQuery @ [CHR 0x00] @ accept_of cfg req)
                             @ ''.'' @ compressor cfg\<rparr>"
  using assms
  by (simp add: normalizeQuery_def truthy_def digest_hex_def hash_update_def createHash_def Let_def)

lemma normalizeQuery_fields:
  assumes "normalizeQuery d cfg req = Inr n"
  shows "extract_query req = Query (Some (query n)) \<and> query n \<noteq> [] \<and> accept n = accept_of cfg req"
  using assms
  by (auto simp: normalizeQuery_def truthy_def Let_def
      split: extracted.splits if_splits prod.splits sum.splits option.splits)

lemma sent_log [simp]: "sent (log cfg e) = []"
  by (simp add: log_def)

lemma enqueued_log [simp]: "enqueued (log cfg e) = []"
  by (simp add: log_def)

lemma cache_writes_log [simp]: "cache_writes (log cfg e) = []"
  by (simp add: log_def)

lemma sent_append [simp]: "sent (xs @ ys) = sent xs @ sent ys"
  by (induction xs rule: sent.induct) simp_all

lemma enqueued_append [simp]: "enqueued (xs @ ys) = enqueued xs @ enqueued ys"
  by (induction xs rule: enqueued.induct) simp_all

lemma cache_writes_append [simp]: "cache_writes (xs @ ys) = cache_writes xs @ cache_writes ys"
  by (induction xs rule: cache_writes.induct) simp_all

lemma handle_hit:
  assumes "normalizeQuery d cfg req = Inr n" and "cache_get c s (cacheKey n) = Inr (Some cached)"
  shows "handle d cfg c enq s qs req =
           ([CacheGet (cacheKey n),
             Send \<lparr>res_status = 200,
                   res_headers = [(''Content-Type'', contentType cached), (''X-Cache'', ''hit'')],
                   res_body = Text (body cached)\<rparr>]
            @ log cfg \<lparr>log_query = query n, cache_hit = True,
                        log_content_type = contentType cached, log_body = body cached\<rparr>,
            s, qs)"
  using assms by (simp add: handle_def)

lemma handle_miss:
  assumes "normalizeQuery d cfg req = Inr n" and "\<forall>e. cache_get c s (cacheKey n) \<noteq> Inr (Some e)"
  shows "handle d cfg c enq s qs req =
           (CacheGet (cacheKey n) # fst (run_job cfg c enq s qs req n),
            snd (run_job cfg c enq s qs req n))"
  using assms by (simp add: handle_def split: sum.splits option.splits prod.splits)

lemma run_job_enqueued:
  "enqueued (fst (run_job cfg c enq s qs req n)) = [(make_job cfg req n, map_of (req_query req) ''token'')]"
  by (simp add: run_job_def Let_def split: sum.splits prod.splits)

lemma run_job_success:
  assumes "fst (enq qs (make_job cfg req n) (map_of (req_query req) ''token'')) = Inr result"
  shows "sent (fst (run_job cfg c enq s qs req n)) =
           [\<lparr>res_status = 200, res_headers = [(''Content-Type'', contentType result)],
             res_body = Text (body result)\<rparr>]
         \<and> cache_writes (fst (run_job cfg c enq s qs req n)) = [(cacheKey n, result)]"
  using assms by (auto simp: run_job_def Let_def split: sum.splits prod.splits)

lemma run_job_events_put:
  "fst (run_job cfg (c\<lparr>cache_put := p\<rparr>) enq s qs req n) = fst (run_job cfg c enq s qs req n)"
  by (simp add: run_job_def Let_def split: sum.splits prod.splits)

lemma accept_of_value:
  "accept_of cfg req =
     (if enableQuerySplitting cfg then ''application/sparql-results+json''
      else case req_accept req of
             None \<Rightarrow> ''application/sparql-results+json''
           | Some h \<Rightarrow> if h = [] then ''application/sparql-results+json'' else h)"
  by (simp add: accept_of_def js_or_def truthy_def default_accept_def split: option.splits)

lemma run_job_cache_writes:
  "(k, v) \<in> set (cache_writes (fst (run_job cfg c enq s qs req n))) \<Longrightarrow> k = cacheKey n"
  by (auto simp: run_job_def Let_def split: sum.splits prod.splits)

lemma run_job_result_get:
  "run_job cfg (c\<lparr>cache_get := g\<rparr>) enq s qs req n = run_job cfg c enq s qs req n"
  by (simp add: run_job_def Let_def split: sum.splits prod.splits)

subsection \<open>The cache key\<close>

text \<open>
  Claim C1. For a request whose query is present, parses and has AST type \<^verbatim>\<open>query\<close>, the
  handler reaches the cache lookup, and the key it looks up, and under which alone it writes,
  is the MD5 hex digest of the preamble followed by the re-serialised AST, one NUL byte and
  the accept media type, followed by a dot and the configured compressor id. The accept
  media type is the request's Accept header when splitting is disabled and the header is
  present and not empty, and \<^verbatim>\<open>application/sparql-results+json\<close> otherwise.
\<close>

theorem cache_key_fingerprint:
  assumes "extract_query req = Query (Some q)" and "q \<noteq> []"
    and "splitPreamble d q = (preamble, compatibleQuery)"
    and "parse d compatibleQuery = Inr parsedQuery"
    and "ast_type d parsedQuery = ''query''"
    and "a = (if enableQuerySplitting cfg then ''application/sparql-results+json''
              else case req_accept req of
                     None \<Rightarrow> ''application/sparql-results+json''
                   | Some h \<Rightarrow> if h = [] then ''application/sparql-results+json'' else h)"
    and "key = md5 d (preamble @ stringify d parsedQuery @ [CHR 0x00] @ a) @ ''.'' @ compressor cfg"
  shows "take 1 (fst (handle d cfg c enq s qs req)) = [CacheGet key]
         \<and> (\<forall>k v. (k, v) \<in> set (cache_writes (fst (handle d cfg c enq s qs req))) \<longrightarrow> k = key)"
proof -
  let ?n = "\<lparr>query = q, accept = a, cacheKey = key\<rparr>"
  have n: "normalizeQuery d cfg req = Inr ?n"
    using normalizeQuery_accepted [OF assms(1-5), of cfg] assms(6,7)
    by (simp add: accept_of_value)
  have first: "take 1 (fst (handle d cfg c enq s qs req)) = [CacheGet key]"
    using n by (simp add: handle_def split: sum.splits option.splits prod.splits)
  have "k = key" if w: "(k, v) \<in> set (cache_writes (fst (handle d cfg c enq s qs req)))" for k v
  proof (cases "\<exists>e. cache_get c s (cacheKey ?n) = Inr (Some e)")
    case True
    then obtain e where "cache_get c s (cacheKey ?n) = Inr (Some e)" by blast
    from handle_hit [OF n this, where enq = enq and qs = qs] w show ?thesis by simp
  next
    case False
    then have "\<forall>e. cache_get c s (cacheKey ?n) \<noteq> Inr (Some e)" by blast
    from handle_miss [OF n this, where enq = enq and qs = qs] w
    have "(k, v) \<in> set (cache_writes (fst (run_job cfg c enq s qs req ?n)))" by simp
    then have "k = cacheKey ?n" by (rule run_job_cache_writes)
    then show ?thesis by simp
  qed
  with first show ?thesis by blast
qed

theorem cache_key_fingerprint_witness:
  "take 1 (fst (handle example_sparql example_config memory_store example_enqueue no_entries []
                  (get_request ''SELECT ?s WHERE { ?s ?p ?o } LIMIT 1'' (Some ''text/csv''))))
     = [CacheGet (''SELECT ?s WHERE { ?s ?p ?o } LIMIT 1'' @ [CHR 0x00] @ ''text/csv'' @ ''.raw'')]"
proof -
  let ?q = "''SELECT ?s WHERE { ?s ?p ?o } LIMIT 1''"
  let ?req = "get_request ?q (Some ''text/csv'')"
  let ?key = "?q @ [CHR 0x00] @ ''text/csv'' @ ''.raw''"
  have h1: "extract_query ?req = Query (Some ?q)"
    by (simp add: extract_query_def get_request_def)
  have h2: "?q \<noteq> []" by simp
  have h3: "splitPreamble example_sparql ?q = ([], ?q)"
    by (simp add: example_sparql_def)
  have h4: "parse example_sparql ?q = Inr (Ast ''query'' ?q)"
    by (simp add: example_sparql_def)
  have h5: "ast_type example_sparql (Ast ''query'' ?q) = ''query''"
    by (simp add: example_sparql_def)
  have h6: "''text/csv'' = (if enableQuerySplitting example_config then ''application/sparql-results+json''
              else case req_accept ?req of
                     None \<Rightarrow> ''application/sparql-results+json''
                   | Some h \<Rightarrow> if h = [] then ''application/sparql-results+json'' else h)"
    by (simp add: example_config_def get_request_def)
  have h7: "?key = md5 example_sparql ([] @ stringify example_sparql (Ast ''query'' ?q) @ [CHR 0x00] @ ''text/csv'')
                     @ ''.'' @ compressor example_config"
    by (simp add: example_sparql_def example_config_def)
  from cache_key_fingerprint [OF h1 h2 h3 h4 h5 h6 h7, of memory_store example_enqueue no_entries "[]"]
  show ?thesis by (rule conjunct1)
qed

subsection \<open>The accept value\<close>

text \<open>
  Claim C2, as stated, fails. With query splitting enabled the handler ignores the request's
  Accept header: a request that carries \<^verbatim>\<open>Accept: text/csv\<close> is fingerprinted, and its job
  is created, with \<^verbatim>\<open>application/sparql-results+json\<close>.
\<close>

theorem accept_header_counterexample:
  "req_accept (get_request ''SELECT 1'' (Some ''text/csv'')) = Some ''text/csv''
   \<and> normalizeQuery example_sparql (example_config\<lparr>enableQuerySplitting := True\<rparr>)
         (get_request ''SELECT 1'' (Some ''text/csv''))
       = Inr \<lparr>query = ''SELECT 1'', accept = ''application/sparql-results+json'',
              cacheKey = ''SELECT 1'' @ [CHR 0x00] @ ''application/sparql-results+json'' @ ''.raw''\<rparr>
   \<and> map (job_accept \<circ> fst)
         (enqueued (fst (handle example_sparql (example_config\<lparr>enableQuerySplitting := True\<rparr>)
                           memory_store example_enqueue no_entries []
                           (get_request ''SELECT 1'' (Some ''text/csv'')))))
       = [''application/sparql-results+json'']"
  by (simp add: handle_def normalizeQuery_def extract_query_def truthy_def digest_hex_def
      hash_update_def createHash_def accept_of_def js_or_def default_accept_def run_job_def
      make_job_def log_def Let_def example_sparql_def example_config_def memory_store_def
      example_enqueue_def get_request_def no_entries_def)

text \<open>
  Claim C2, amended. With query splitting disabled, the accept value that enters the
  fingerprint and is attached to the job is the request's Accept header when the header is
  present and not empty, and \<^verbatim>\<open>application/sparql-results+json\<close> otherwise; with query
  splitting enabled it is always \<^verbatim>\<open>application/sparql-results+json\<close>.
\<close>

theorem accept_value:
  assumes "extract_query req = Query (Some q)" and "q \<noteq> []"
    and "splitPreamble d q = (preamble, compatibleQuery)"
    and "parse d compatibleQuery = Inr parsedQuery"
    and "ast_type d parsedQuery = ''query''"
    and "a = (if enableQuerySplitting cfg then ''application/sparql-results+json''
              else case req_accept req of
                     None \<Rightarrow> ''application/sparql-results+json''
                   | Some h \<Rightarrow> if h = [] then ''application/sparql-results+json'' else h)"
  shows "normalizeQuery d cfg req =
           Inr \<lparr>query = q, accept = a,
                cacheKey = md5 d (preamble @ stringify d parsedQuery @ [CHR 0x00] @ a)
                             @ ''.'' @ compressor cfg\<rparr>
         \<and> (\<forall>j t. (j, t) \<in> set (enqueued (fst (handle d cfg c enq s qs req))) \<longrightarrow> job_accept j = a)"
proof -
  have a: "accept_of cfg req = a"
    using assms(6)
    by (simp add: accept_of_def js_or_def truthy_def default_accept_def split: option.splits)
  let ?n = "\<lparr>query = q, accept = a,
             cacheKey = md5 d (preamble @ stringify d parsedQuery @ [CHR 0x00] @ a)
                          @ ''.'' @ compressor cfg\<rparr>"
  have n: "normalizeQuery d cfg req = Inr ?n"
    using normalizeQuery_accepted [OF assms(1-5), of cfg] a by simp
  have "job_accept j = a" if "(j, t) \<in> set (enqueued (fst (handle d cfg c enq s qs req)))" for j t
  proof (cases "\<exists>e. cache_get c s (cacheKey ?n) = Inr (Some e)")
    case True
    then obtain e where "cache_get c s (cacheKey ?n) = Inr (Some e)" by blast
    from handle_hit [OF n this, where enq = enq and qs = qs] that show ?thesis by simp
  next
    case False
    then have "\<forall>e. cache_get c s (cacheKey ?n) \<noteq> Inr (Some e)" by blast
    from handle_miss [OF n this, where enq = enq and qs = qs] that
    have "(j, t) \<in> set (enqueued (fst (run_job cfg c enq s qs req ?n)))" by simp
    then show ?thesis by (simp add: run_job_enqueued make_job_def)
  qed
  with n show ?thesis by blast
qed

theorem accept_value_witness:
  "normalizeQuery example_sparql example_config (get_request ''SELECT 1'' (Some ''text/csv''))
     = Inr \<lparr>query = ''SELECT 1'', accept = ''text/csv'',
            cacheKey = ''SELECT 1'' @ [CHR 0x00] @ ''text/csv'' @ ''.raw''\<rparr>"
proof -
  let ?req = "get_request ''SELECT 1'' (Some ''text/csv'')"
  have h1: "extract_query ?req = Query (Some ''SELECT 1'')"
    by (simp add: extract_query_def get_request_def)
  have h2: "''SELECT 1'' \<noteq> []" by simp
  have h3: "splitPreamble example_sparql ''SELECT 1'' = ([], ''SELECT 1'')"
    by (simp add: example_sparql_def)
  have h4: "parse example_sparql ''SELECT 1'' = Inr (Ast ''query'' ''SELECT 1'')"
    by (simp add: example_sparql_def)
  have h5: "ast_type example_sparql (Ast ''query'' ''SELECT 1'') = ''query''"
    by (simp add: example_sparql_def)
  have h6: "''text/csv'' = (if enableQuerySplitting example_config then ''application/sparql-results+json''
              else case req_accept ?req of
                     None \<Rightarrow> ''application/sparql-results+json''
                   | Some h \<Rightarrow> if h = [] then ''application/sparql-results+json'' else h)"
    by (simp add: example_config_def get_request_def)
  from accept_value [OF h1 h2 h3 h4 h5 h6, of memory_store example_enqueue Map.empty "[]"]
  show ?thesis by (simp add: example_sparql_def example_config_def)
qed

subsection \<open>Cache hits\<close>

text \<open>
  Claim C4. When the lookup yields an entry, the only response sent has status 200, the
  entry's content type, the header \<^verbatim>\<open>X-Cache: hit\<close> and the entry's body, and no job is
  enqueued. Every run of the same request that misses and whose job yields that entry writes
  it to the cache under the same key and sends the same response without the \<^verbatim>\<open>X-Cache\<close>
  header.
\<close>

theorem cache_hit_response:
  assumes "normalizeQuery d cfg req = Inr n"
    and "cache_get c s (cacheKey n) = Inr (Some cached)"
  shows "sent (fst (handle d cfg c enq s qs req)) =
           [\<lparr>res_status = 200,
             res_headers = [(''Content-Type'', contentType cached), (''X-Cache'', ''hit'')],
             res_body = Text (body cached)\<rparr>]
         \<and> enqueued (fst (handle d cfg c enq s qs req)) = []
         \<and> (\<forall>s0 qs0.
               (\<forall>e. cache_get c s0 (cacheKey n) \<noteq> Inr (Some e))
               \<and> fst (enq qs0 (make_job cfg req n) (map_of (req_query req) ''token'')) = Inr cached
               \<longrightarrow> cache_writes (fst (handle d cfg c enq s0 qs0 req)) = [(cacheKey n, cached)]
                   \<and> sent (fst (handle d cfg c enq s0 qs0 req))
                       = map (without_header ''X-Cache'') (sent (fst (handle d cfg c enq s qs req))))"
proof -
  have hit: "sent (fst (handle d cfg c enq s qs req)) =
           [\<lparr>res_status = 200,
             res_headers = [(''Content-Type'', contentType cached), (''X-Cache'', ''hit'')],
             res_body = Text (body cached)\<rparr>]"
    and none: "enqueued (fst (handle d cfg c enq s qs req)) = []"
    using handle_hit [OF assms, where enq = enq and qs = qs] by simp_all
  have "cache_writes (fst (handle d cfg c enq s0 qs0 req)) = [(cacheKey n, cached)]
        \<and> sent (fst (handle d cfg c enq s0 qs0 req))
            = map (without_header ''X-Cache'') (sent (fst (handle d cfg c enq s qs req)))"
    if miss: "\<forall>e. cache_get c s0 (cacheKey n) \<noteq> Inr (Some e)"
      and res: "fst (enq qs0 (make_job cfg req n) (map_of (req_query req) ''token'')) = Inr cached"
    for s0 qs0
    using handle_miss [OF assms(1) miss, where enq = enq and qs = qs0]
      run_job_success [where enq = enq and qs = qs0 and cfg = cfg and req = req and n = n
        and result = cached and c = c and s = s0] res hit
    by (simp add: without_header_def)
  with hit none show ?thesis by blast
qed

theorem cache_hit_response_witness:
  "sent (fst (handle example_sparql example_config memory_store example_enqueue
                [''SELECT 1'' @ [CHR 0x00] @ ''application/sparql-results+json'' @ ''.raw''
                   \<mapsto> \<lparr>contentType = ''application/sparql-results+json'', body = ''{}''\<rparr>]
                [] (get_request ''SELECT 1'' None)))
     = [\<lparr>res_status = 200,
         res_headers = [(''Content-Type'', ''application/sparql-results+json''), (''X-Cache'', ''hit'')],
         res_body = Text ''{}''\<rparr>]
   \<and> sent (fst (handle example_sparql example_config memory_store example_enqueue
                Map.empty [] (get_request ''SELECT 1'' None)))
     = [\<lparr>res_status = 200,
         res_headers = [(''Content-Type'', ''application/sparql-results+json'')],
         res_body = Text ''{}''\<rparr>]
   \<and> snd (handle example_sparql example_config memory_store example_enqueue
                Map.empty [] (get_request ''SELECT 1'' None))
     = ([''SELECT 1'' @ [CHR 0x00] @ ''application/sparql-results+json'' @ ''.raw''
                   \<mapsto> \<lparr>contentType = ''application/sparql-results+json'', body = ''{}''\<rparr>],
        [make_job example_config (get_request ''SELECT 1'' None)
           \<lparr>query = ''SELECT 1'', accept = ''application/sparql-results+json'',
            cacheKey = ''SELECT 1'' @ [CHR 0x00] @ ''application/sparql-results+json'' @ ''.raw''\<rparr>])"
proof -
  let ?req = "get_request ''SELECT 1'' None"
  let ?key = "''SELECT 1'' @ [CHR 0x00] @ ''application/sparql-results+json'' @ ''.raw''"
  let ?n = "\<lparr>query = ''SELECT 1'', accept = ''application/sparql-results+json'', cacheKey = ?key\<rparr>"
  let ?e = "\<lparr>contentType = ''application/sparql-results+json'', body = ''{}''\<rparr>"
  let ?s = "[?key \<mapsto> ?e]"
  have n: "normalizeQuery example_sparql example_config ?req = Inr ?n"
    by (simp add: normalizeQuery_def extract_query_def truthy_def digest_hex_def
        hash_update_def createHash_def accept_of_def js_or_def default_accept_def Let_def
        example_sparql_def example_config_def get_request_def)
  have hit: "cache_get memory_store ?s (cacheKey ?n) = Inr (Some ?e)"
    by (simp add: memory_store_def)
  have miss: "\<forall>e. cache_get memory_store Map.empty (cacheKey ?n) \<noteq> Inr (Some e)"
    by (simp add: memory_store_def)
  have res: "fst (example_enqueue [] (make_job example_config ?req ?n) (map_of (req_query ?req) ''token'')) = Inr ?e"
    by (simp add: example_enqueue_def)
  from cache_hit_response [OF n hit, of example_enqueue "[]"] miss res
  have "sent (fst (handle example_sparql example_config memory_store example_enqueue ?s [] ?req))
          = [\<lparr>res_status = 200,
         res_headers = [(''Content-Type'', ''application/sparql-results+json''), (''X-Cache'', ''hit'')],
         res_body = Text ''{}''\<rparr>]"
    and "sent (fst (handle example_sparql example_config memory_store example_enqueue Map.empty [] ?req))
          = map (without_header ''X-Cache'') (sent (fst (handle example_sparql example_config memory_store example_enqueue ?s [] ?req)))"
    by auto
  moreover have "snd (handle example_sparql example_config memory_store example_enqueue
                Map.empty [] ?req) = (?s, [make_job example_config ?req ?n])"
    using handle_miss [OF n miss, of example_enqueue "[]"]
    by (simp add: run_job_def Let_def example_enqueue_def memory_store_def)
  ultimately show ?thesis by (simp add: without_header_def)
qed

subsection \<open>Errors of the cache store\<close>

text \<open>
  Claim C5. When \<^verbatim>\<open>cache.get\<close> is rejected, the request runs exactly as if the store had
  answered \<^verbatim>\<open>null\<close>, and the job is enqueued. When \<^verbatim>\<open>cache.put\<close> is rejected after a
  successful job, the one response sent is the job's result, and the trace of effects is the
  same as with a store whose \<^verbatim>\<open>put\<close> succeeds.
\<close>

theorem cache_errors_do_not_fail_request:
  assumes "normalizeQuery d cfg req = Inr n"
  shows "(cache_get c s (cacheKey n) = Inl err \<longrightarrow>
            handle d cfg c enq s qs req = handle d cfg (c\<lparr>cache_get := \<lambda>st key. Inr None\<rparr>) enq s qs req
            \<and> enqueued (fst (handle d cfg c enq s qs req))
                = [(make_job cfg req n, map_of (req_query req) ''token'')])
         \<and> ((\<forall>e. cache_get c s (cacheKey n) \<noteq> Inr (Some e))
              \<and> enq qs (make_job cfg req n) (map_of (req_query req) ''token'') = (Inr result, qs')
              \<and> fst (cache_put c s (cacheKey n) result) = Some put_err \<longrightarrow>
            sent (fst (handle d cfg c enq s qs req))
              = [\<lparr>res_status = 200, res_headers = [(''Content-Type'', contentType result)],
                  res_body = Text (body result)\<rparr>]
            \<and> fst (handle d cfg c enq s qs req)
                = fst (handle d cfg (c\<lparr>cache_put := \<lambda>st key v. (None, st)\<rparr>) enq s qs req))"
proof -
  have get: "handle d cfg c enq s qs req = handle d cfg (c\<lparr>cache_get := \<lambda>st key. Inr None\<rparr>) enq s qs req
            \<and> enqueued (fst (handle d cfg c enq s qs req))
                = [(make_job cfg req n, map_of (req_query req) ''token'')]"
    if e: "cache_get c s (cacheKey n) = Inl err"
  proof -
    have "handle d cfg c enq s qs req = handle d cfg (c\<lparr>cache_get := \<lambda>st key. Inr None\<rparr>) enq s qs req"
      using assms e by (simp add: handle_def run_job_result_get)
    moreover have "\<forall>x. cache_get c s (cacheKey n) \<noteq> Inr (Some x)"
      using e by simp
    from handle_miss [OF assms this, where enq = enq and qs = qs]
    have "enqueued (fst (handle d cfg c enq s qs req))
                = [(make_job cfg req n, map_of (req_query req) ''token'')]"
      by (simp add: run_job_enqueued)
    ultimately show ?thesis by simp
  qed
  have put: "sent (fst (handle d cfg c enq s qs req))
              = [\<lparr>res_status = 200, res_headers = [(''Content-Type'', contentType result)],
                  res_body = Text (body result)\<rparr>]
            \<and> fst (handle d cfg c enq s qs req)
                = fst (handle d cfg (c\<lparr>cache_put := \<lambda>st key v. (None, st)\<rparr>) enq s qs req)"
    if miss: "\<forall>e. cache_get c s (cacheKey n) \<noteq> Inr (Some e)"
      and res: "enq qs (make_job cfg req n) (map_of (req_query req) ''token'') = (Inr result, qs')"
  proof -
    have miss': "\<forall>e. cache_get (c\<lparr>cache_put := \<lambda>st key v. (None, st)\<rparr>) s (cacheKey n) \<noteq> Inr (Some e)"
      using miss by simp
    have "fst (enq qs (make_job cfg req n) (map_of (req_query req) ''token'')) = Inr result"
      using res by simp
    from run_job_success [where enq = enq and qs = qs and cfg = cfg and req = req and n = n
        and result = result and c = c and s = s, OF this]
      handle_miss [OF assms miss, where enq = enq and qs = qs]
      handle_miss [OF assms miss', where enq = enq and qs = qs]
    show ?thesis by (simp add: run_job_events_put)
  qed
  from get put show ?thesis by blast
qed

theorem cache_errors_do_not_fail_request_witness:
  "enqueued (fst (handle example_sparql example_config failing_store example_enqueue () []
                    (get_request ''SELECT 1'' None)))
     = [(make_job example_config (get_request ''SELECT 1'' None)
           \<lparr>query = ''SELECT 1'', accept = ''application/sparql-results+json'',
            cacheKey = ''SELECT 1'' @ [CHR 0x00] @ ''application/sparql-results+json'' @ ''.raw''\<rparr>,
         None)]
   \<and> sent (fst (handle example_sparql example_config failing_store example_enqueue () []
                    (get_request ''SELECT 1'' None)))
     = [\<lparr>res_status = 200,
         res_headers = [(''Content-Type'', ''application/sparql-results+json'')],
         res_body = Text ''{}''\<rparr>]"
proof -
  let ?req = "get_request ''SELECT 1'' None"
  let ?key = "''SELECT 1'' @ [CHR 0x00] @ ''application/sparql-results+json'' @ ''.raw''"
  let ?n = "\<lparr>query = ''SELECT 1'', accept = ''application/sparql-results+json'', cacheKey = ?key\<rparr>"
  let ?e = "\<lparr>contentType = ''application/sparql-results+json'', body = ''{}''\<rparr>"
  let ?j = "make_job example_config ?req ?n"
  have n: "normalizeQuery example_sparql example_config ?req = Inr ?n"
    by (simp add: normalizeQuery_def extract_query_def truthy_def digest_hex_def
        hash_update_def createHash_def accept_of_def js_or_def default_accept_def Let_def
        example_sparql_def example_config_def get_request_def)
  have g: "cache_get failing_store () (cacheKey ?n) = Inl ''EIO''"
    by (simp add: failing_store_def)
  have miss: "\<forall>e. cache_get failing_store () (cacheKey ?n) \<noteq> Inr (Some e)"
    by (simp add: failing_store_def)
  have res: "example_enqueue [] ?j (map_of (req_query ?req) ''token'') = (Inr ?e, [?j])"
    by (simp add: example_enqueue_def)
  have p: "fst (cache_put failing_store () (cacheKey ?n) ?e) = Some ''EIO''"
    by (simp add: failing_store_def)
  have tok: "map_of (req_query ?req) ''token'' = None"
    by (simp add: get_request_def)
  note T = cache_errors_do_not_fail_request [OF n, of failing_store "()" "''EIO''" example_enqueue "[]" ?e "[?j]" "''EIO''"]
  have e1: "enqueued (fst (handle example_sparql example_config failing_store example_enqueue () [] ?req))
              = [(?j, None)]"
    using T [THEN conjunct1, THEN mp, OF g, THEN conjunct2] tok by simp
  have e2: "sent (fst (handle example_sparql example_config failing_store example_enqueue () [] ?req))
              = [\<lparr>res_status = 200,
                  res_headers = [(''Content-Type'', ''application/sparql-results+json'')],
                  res_body = Text ''{}''\<rparr>]"
    using T [THEN conjunct2, THEN mp, OF conjI [OF miss conjI [OF res p]], THEN conjunct1] by simp
  from e1 e2 show ?thesis by simp
qed

subsection \<open>The reply to a disallowed query type\<close>

text \<open>The two sibling failures are answered with JSON objects.\<close>

lemma missing_query_reply_is_json:
  assumes "extract_query req = Query q" and "\<not> truthy q"
  shows "handle d cfg c enq s qs req =
           ([Send \<lparr>res_status = 400, res_headers = [],
                   res_body = Json [(''message'', ''Query is required'')]\<rparr>], s, qs)"
  using assms by (simp add: handle_def normalizeQuery_def)

lemma parse_failure_reply_is_json:
  assumes "extract_query req = Query (Some q)" and "q \<noteq> []"
    and "splitPreamble d q = (preamble, compatibleQuery)"
    and "parse d compatibleQuery = Inl message"
  shows "handle d cfg c enq s qs req =
           ([Send \<lparr>res_status = 400, res_headers = [],
                   res_body = Json [(''message'', ''Query parse failed''), (''data'', message)]\<rparr>],
            s, qs)"
  using assms by (simp add: handle_def normalizeQuery_def truthy_def)

text \<open>
  Claim C8 asks for a JSON object \<^verbatim>\<open>{message, data?}\<close> as the body of every 400 reply to a
  known precondition failure. The replies to a missing query and to a parse failure are such
  objects; for a query whose AST type is not \<^verbatim>\<open>query\<close> the handler sends the plain
  string \<^verbatim>\<open>Query type not allowed\<close>.
\<close>

theorem disallowed_type_reply_is_plain_text:
  assumes "extract_query req = Query (Some q)" and "q \<noteq> []"
    and "splitPreamble d q = (preamble, compatibleQuery)"
    and "parse d compatibleQuery = Inr parsedQuery"
    and "ast_type d parsedQuery \<noteq> ''query''"
  shows "handle d cfg c enq s qs req =
           ([Send \<lparr>res_status = 400, res_headers = [], res_body = Text ''Query type not allowed''\<rparr>], s, qs)"
  using assms by (simp add: handle_def normalizeQuery_def truthy_def)

theorem disallowed_type_reply_at_insert_data:
  "handle example_sparql example_config memory_store example_enqueue Map.empty []
     \<lparr>req_method = ''POST'', req_query = [],
      req_body = SparqlQueryBody ''INSERT DATA { <a> <b> <c> }'',
      req_accept = None, req_ip = ''127.0.0.1''\<rparr>
   = ([Send \<lparr>res_status = 400, res_headers = [], res_body = Text ''Query type not allowed''\<rparr>],
      Map.empty, [])"
proof -
  let ?q = "''INSERT DATA { <a> <b> <c> }''"
  let ?req = "\<lparr>req_method = ''POST'', req_query = [],
      req_body = SparqlQueryBody ?q, req_accept = None, req_ip = ''127.0.0.1''\<rparr>"
  have h1: "extract_query ?req = Query (Some ?q)"
    by (simp add: extract_query_def)
  have h2: "?q \<noteq> []" by simp
  have h3: "splitPreamble example_sparql ?q = ([], ?q)"
    by (simp add: example_sparql_def)
  have h4: "parse example_sparql ?q = Inr (Ast ''update'' ?q)"
    by (simp add: example_sparql_def)
  have h5: "ast_type example_sparql (Ast ''update'' ?q) \<noteq> ''query''"
    by (simp add: example_sparql_def)
  from disallowed_type_reply_is_plain_text [OF h1 h2 h3 h4 h5]
  show ?thesis .
qed

subsection \<open>The job's query\<close>

text \<open>
  Claim C9. On a cache miss exactly one job is enqueued; its query is the text extracted
  from the request, unchanged, and no field of the job depends on the parser, the generator
  or the preamble splitter.
\<close>

theorem job_carries_raw_query:
  assumes "extract_query req = Query (Some q)"
    and "normalizeQuery d cfg req = Inr n"
    and "\<forall>e. cache_get c s (cacheKey n) \<noteq> Inr (Some e)"
  shows "enqueued (fst (handle d cfg c enq s qs req)) =
           [(\<lparr>job_backend = backend cfg,
              rawQuery = q,
              job_accept = accept_of cfg req,
              timeout = jobTimeout cfg,
              job_ip = req_ip req,
              job_enableQuerySplitting = enableQuerySplitting cfg,
              job_maxLimit = maxLimit cfg,
              job_maxChunkLimit = maxChunkLimit cfg\<rparr>,
             map_of (req_query req) ''token'')]"
proof -
  from normalizeQuery_fields [OF assms(2)] assms(1)
  have "query n = q" and "accept n = accept_of cfg req" by simp_all
  with handle_miss [OF assms(2,3), where enq = enq and qs = qs]
  show ?thesis by (simp add: run_job_enqueued make_job_def)
qed

theorem job_carries_raw_query_witness:
  "map (rawQuery \<circ> fst)
     (enqueued (fst (handle (example_sparql\<lparr>stringify := (\<lambda>a. ''SELECT ?s WHERE { ?s ?p ?o }'')\<rparr>)
                       example_config memory_store example_enqueue Map.empty []
                       (get_request ''SELECT  ?s  WHERE {?s ?p ?o}'' None))))
     = [''SELECT  ?s  WHERE {?s ?p ?o}'']"
proof -
  let ?d = "example_sparql\<lparr>stringify := (\<lambda>a. ''SELECT ?s WHERE { ?s ?p ?o }'')\<rparr>"
  let ?q = "''SELECT  ?s  WHERE {?s ?p ?o}''"
  let ?req = "get_request ?q None"
  let ?n = "\<lparr>query = ?q, accept = ''application/sparql-results+json'',
             cacheKey = ''SELECT ?s WHERE { ?s ?p ?o }'' @ [CHR 0x00]
                          @ ''application/sparql-results+json'' @ ''.raw''\<rparr>"
  have h1: "extract_query ?req = Query (Some ?q)"
    by (simp add: extract_query_def get_request_def)
  have n: "normalizeQuery ?d example_config ?req = Inr ?n"
    by (simp add: normalizeQuery_def extract_query_def truthy_def digest_hex_def
        hash_update_def createHash_def accept_of_def js_or_def default_accept_def Let_def
        example_sparql_def example_config_def get_request_def)
  have miss: "\<forall>e. cache_get memory_store Map.empty (cacheKey ?n) \<noteq> Inr (Some e)"
    by (simp add: memory_store_def)
  from job_carries_raw_query [OF h1 n miss, of example_enqueue "[]"]
  show ?thesis by simp
qed

section \<open>Properties of the live channel's authentication\<close>

text \<open>
  Claim C10. A handshake without a Cookie header makes the middleware throw the
  \<^verbatim>\<open>TypeError\<close> of \<^verbatim>\<open>cookie.parse\<close>; it does not refuse the connection with the
  \<^verbatim>\<open>Authentication error\<close> that a handshake with a Cookie header and the wrong
  credentials gets.
\<close>

theorem missing_cookie_header_throws:
  "io_use_middleware pairs_of cfg None
     = Thrown \<lparr>err_code = None, err_message = ''argument str must be a string''\<rparr>
   \<and> io_use_middleware pairs_of cfg None \<noteq> NextError ''Authentication error''
   \<and> io_use_middleware pairs_of cfg (Some str)
       = (if map_of (pairs_of str) cookieKey = Some (secret cfg) then Next
          else NextError ''Authentication error'')"
  by (simp add: io_use_middleware_def cookie_parse_def)

section \<open>Properties of the filesystem cache stores\<close>

subsection \<open>Joining plain segments\<close>

lemma segments_nonempty [simp]: "segments p \<noteq> []"
  by (induction p) (auto split: list.splits)

lemma segments_plain_prefix:
  "CHR ''/'' \<notin> set s \<Longrightarrow> segments (s @ rest) = (s @ hd (segments rest)) # tl (segments rest)"
proof (induction s)
  case Nil
  then show ?case by simp
next
  case (Cons c s)
  then show ?case by (auto split: list.splits)
qed

lemma segments_abs_path:
  "\<forall>s\<in>set segs. CHR ''/'' \<notin> set s \<Longrightarrow> segments (abs_path segs) = [] # segs"
proof (induction segs)
  case Nil
  then show ?case by (simp add: abs_path_def)
next
  case (Cons s segs)
  then have ih: "segments (abs_path segs) = [] # segs" by simp
  have "abs_path (s # segs) = CHR ''/'' # (s @ abs_path segs)"
    by (simp add: abs_path_def)
  moreover have "segments (s @ abs_path segs) = s # segs"
    using Cons.prems ih by (simp add: segments_plain_prefix)
  ultimately show ?case by simp
qed

lemma normalizeString_plain:
  "\<forall>s\<in>set segs. plain_segment s \<Longrightarrow> normalizeString allow res segs = res @ segs"
  by (induction segs arbitrary: res) (simp_all add: plain_segment_def)

lemma slash_join_slash:
  "segs \<noteq> [] \<Longrightarrow> CHR ''/'' # join_slash segs = abs_path segs"
  by (induction segs rule: join_slash.induct) (simp_all add: abs_path_def)

lemma abs_path_append: "abs_path (xs @ ys) = abs_path xs @ abs_path ys"
  by (simp add: abs_path_def)

lemma abs_path_last:
  "segs \<noteq> [] \<Longrightarrow> \<forall>s\<in>set segs. plain_segment s \<Longrightarrow>
     abs_path segs \<noteq> [] \<and> hd (abs_path segs) = CHR ''/'' \<and> last (abs_path segs) \<noteq> CHR ''/''"
proof (induction segs rule: rev_induct)
  case Nil
  then show ?case by simp
next
  case (snoc s segs)
  then have "s \<noteq> []" and "CHR ''/'' \<notin> set s" by (simp_all add: plain_segment_def)
  then have "last s \<noteq> CHR ''/''" by (metis last_in_set)
  with \<open>s \<noteq> []\<close> show ?case
    by (cases segs) (simp_all add: abs_path_def)
qed

lemma path_normalize_abs_path:
  assumes "segs \<noteq> []" and "\<forall>s\<in>set segs. plain_segment s"
  shows "path_normalize (abs_path segs) = abs_path segs"
proof -
  from abs_path_last [OF assms]
  have ne: "abs_path segs \<noteq> []" and h: "hd (abs_path segs) = CHR ''/''"
    and l: "last (abs_path segs) \<noteq> CHR ''/''" by simp_all
  have "\<forall>s\<in>set segs. CHR ''/'' \<notin> set s"
    using assms(2) by (simp add: plain_segment_def)
  then have seg: "segments (abs_path segs) = [] # segs" by (rule segments_abs_path)
  have norm: "normalizeString False [] ([] # segs) = segs"
    using normalizeString_plain [OF assms(2), of False "[]"] by simp
  have j: "CHR ''/'' # join_slash segs = abs_path segs"
    using assms(1) by (rule slash_join_slash)
  have "join_slash segs \<noteq> []"
    using j l ne by (metis last.simps)
  with ne h l seg norm j show ?thesis
    by (simp add: path_normalize_def Let_def)
qed

lemma path_join_abs_path:
  assumes "segs \<noteq> []" and "\<forall>s\<in>set segs. plain_segment s"
    and "plain_segment a" and "plain_segment b" and "plain_segment k"
  shows "path_join [abs_path segs, a, b, k] = abs_path segs @ ''/'' @ a @ ''/'' @ b @ ''/'' @ k"
proof -
  have ne: "abs_path segs \<noteq> []"
    using abs_path_last [OF assms(1,2)] by simp
  have abk: "a \<noteq> []" "b \<noteq> []" "k \<noteq> []"
    using assms(3-5) by (simp_all add: plain_segment_def)
  have "join_slash [abs_path segs, a, b, k] = abs_path (segs @ [a, b, k])"
    by (simp add: abs_path_def)
  moreover have "path_normalize (abs_path (segs @ [a, b, k])) = abs_path (segs @ [a, b, k])"
    using assms by (intro path_normalize_abs_path) auto
  ultimately have "path_join [abs_path segs, a, b, k] = abs_path (segs @ [a, b, k])"
    using ne abk by (simp add: path_join_def)
  then show ?thesis by (simp add: abs_path_def)
qed

lemma segments_join_slash:
  "segs \<noteq> [] \<Longrightarrow> \<forall>s\<in>set segs. CHR ''/'' \<notin> set s \<Longrightarrow> segments (join_slash segs) = segs"
proof (induction segs rule: join_slash.induct)
  case 1
  then show ?case by simp
next
  case (2 s)
  then show ?case using segments_plain_prefix [of s "[]"] by simp
next
  case (3 s t ss)
  then have "segments (join_slash (t # ss)) = t # ss" by simp
  then have "segments (''/'' @ join_slash (t # ss)) = [] # t # ss" by simp
  with 3 show ?case
    using segments_plain_prefix [of s "''/'' @ join_slash (t # ss)"] by simp
qed

lemma join_slash_snoc:
  "segs \<noteq> [] \<Longrightarrow> join_slash (segs @ [s]) = join_slash segs @ ''/'' @ s"
  by (induction segs rule: join_slash.induct) simp_all

lemma join_slash_ends:
  "segs \<noteq> [] \<Longrightarrow> \<forall>s\<in>set segs. plain_segment s \<Longrightarrow>
     join_slash segs \<noteq> [] \<and> hd (join_slash segs) \<noteq> CHR ''/'' \<and> last (join_slash segs) \<noteq> CHR ''/''"
proof (induction segs rule: join_slash.induct)
  case 1
  then show ?case by simp
next
  case (2 s)
  then have "s \<noteq> []" and "CHR ''/'' \<notin> set s" by (simp_all add: plain_segment_def)
  then show ?case by (metis hd_in_set last_in_set join_slash.simps(2))
next
  case (3 s t ss)
  then have "s \<noteq> []" and "CHR ''/'' \<notin> set s" by (simp_all add: plain_segment_def)
  then have "hd s \<noteq> CHR ''/''" by (metis hd_in_set)
  with 3 \<open>s \<noteq> []\<close> show ?case by simp
qed

lemma path_normalize_join_slash:
  assumes "segs \<noteq> []" and "\<forall>s\<in>set segs. plain_segment s"
  shows "path_normalize (join_slash segs) = join_slash segs"
proof -
  from join_slash_ends [OF assms]
  have ne: "join_slash segs \<noteq> []" and h: "hd (join_slash segs) \<noteq> CHR ''/''"
    and l: "last (join_slash segs) \<noteq> CHR ''/''" by simp_all
  have "\<forall>s\<in>set segs. CHR ''/'' \<notin> set s"
    using assms(2) by (simp add: plain_segment_def)
  with assms(1) have seg: "segments (join_slash segs) = segs" by (rule segments_join_slash)
  have norm: "normalizeString True [] segs = segs"
    using normalizeString_plain [OF assms(2), of True "[]"] by simp
  from ne h l seg norm show ?thesis
    by (simp add: path_normalize_def Let_def)
qed

lemma path_join_rel_path:
  assumes "segs \<noteq> []" and "\<forall>s\<in>set segs. plain_segment s"
    and "plain_segment a" and "plain_segment b" and "plain_segment k"
  shows "path_join [join_slash segs, a, b, k] = join_slash segs @ ''/'' @ a @ ''/'' @ b @ ''/'' @ k"
proof -
  have ne: "join_slash segs \<noteq> []"
    using join_slash_ends [OF assms(1,2)] by simp
  have abk: "a \<noteq> []" "b \<noteq> []" "k \<noteq> []"
    using assms(3-5) by (simp_all add: plain_segment_def)
  have j: "join_slash (segs @ [a, b, k]) = join_slash segs @ ''/'' @ a @ ''/'' @ b @ ''/'' @ k"
    using join_slash_snoc [of "segs @ [a, b]" k] join_slash_snoc [of "segs @ [a]" b]
      join_slash_snoc [of segs a] assms(1) by simp
  then have "join_slash [join_slash segs, a, b, k] = join_slash (segs @ [a, b, k])"
    by simp
  moreover have "path_normalize (join_slash (segs @ [a, b, k])) = join_slash (segs @ [a, b, k])"
    using assms by (intro path_normalize_join_slash) auto
  ultimately have "path_join [join_slash segs, a, b, k] = join_slash (segs @ [a, b, k])"
    using ne abk by (simp add: path_join_def)
  with j show ?thesis by simp
qed

lemma plain_take:
  assumes "CHR ''/'' \<notin> set key" and "CHR ''.'' \<notin> set (take 4 key)" and "4 \<le> length key"
  shows "plain_segment (take 2 key)" and "plain_segment (take 2 (drop 2 key))"
    and "plain_segment [key ! 0]" and "plain_segment [key ! 1]" and "plain_segment key"
proof -
  obtain a b c e rest where k: "key = a # b # c # e # rest"
    using assms(3) by (metis Suc_le_length_iff numeral_2_eq_2 numeral_3_eq_3 numeral_Bit0 Suc_1 add_Suc_right add_2_eq_Suc' numerals(1) one_add_one)
  with assms(1,2) show "plain_segment (take 2 key)" "plain_segment (take 2 (drop 2 key))"
    "plain_segment [key ! 0]" "plain_segment [key ! 1]" "plain_segment key"
    by (auto simp: plain_segment_def)
qed

subsection \<open>The path of a key\<close>

text \<open>
  Claim C7, as stated, fails for the store of raw values: its directories are named by the
  first and by the second character of the key, not by the first two and the next two.
\<close>

theorem raw_store_path_counterexample:
  "raw_store_getPath ''/cache'' ''abcdef.raw'' = Inr ''/cache/a/b/abcdef.raw''
   \<and> raw_store_getPath ''/cache'' ''abcdef.raw''
       \<noteq> Inr (''/cache'' @ ''/'' @ take 2 ''abcdef.raw'' @ ''/'' @ take 2 (drop 2 ''abcdef.raw'')
                 @ ''/'' @ ''abcdef.raw'')"
  by (simp add: raw_store_getPath_def path_join_def path_normalize_def Let_def)

text \<open>
  Claim C7, amended. For a root directory that is a normalised path of plain segments,
  absolute or relative, and a key of at least four characters without a slash and without a
  dot among its first four characters (as every key made of a hex digest, a dot and a
  compressor id is), the store that wraps a compressor maps the key to
  \<^verbatim>\<open>root/key[0:2]/key[2:4]/key\<close>, and the store of raw values maps it to
  \<^verbatim>\<open>root/key[0]/key[1]/key\<close>.
\<close>

theorem store_paths:
  assumes "segs \<noteq> []" and "\<forall>s\<in>set segs. plain_segment s"
    and "rootDir = abs_path segs \<or> rootDir = join_slash segs"
    and "4 \<le> length key" and "CHR ''/'' \<notin> set key" and "CHR ''.'' \<notin> set (take 4 key)"
  shows "file_store_getPath rootDir key
           = rootDir @ ''/'' @ take 2 key @ ''/'' @ take 2 (drop 2 key) @ ''/'' @ key
         \<and> raw_store_getPath rootDir key
           = Inr (rootDir @ ''/'' @ [key ! 0] @ ''/'' @ [key ! 1] @ ''/'' @ key)"
proof -
  note p = plain_take [OF assms(5,6,4)]
  have j: "path_join [rootDir, a, b, key] = rootDir @ ''/'' @ a @ ''/'' @ b @ ''/'' @ key"
    if "plain_segment a" and "plain_segment b" for a b
    using assms(3) path_join_abs_path [OF assms(1,2) that p(5)]
      path_join_rel_path [OF assms(1,2) that p(5)]
    by blast
  have "file_store_getPath rootDir key
           = rootDir @ ''/'' @ take 2 key @ ''/'' @ take 2 (drop 2 key) @ ''/'' @ key"
    unfolding file_store_getPath_def by (rule j [OF p(1,2)])
  moreover have "raw_store_getPath rootDir key
           = Inr (rootDir @ ''/'' @ [key ! 0] @ ''/'' @ [key ! 1] @ ''/'' @ key)"
    using assms(4) j [OF p(3,4)] by (simp add: raw_store_getPath_def)
  ultimately show ?thesis by simp
qed

theorem store_paths_witness:
  "file_store_getPath ''/tmp/sparql-proxy/cache'' ''9e107d9d372bb6826bd81d3542a419d6.raw''
     = ''/tmp/sparql-proxy/cache/9e/10/9e107d9d372bb6826bd81d3542a419d6.raw''
   \<and> raw_store_getPath ''/tmp/sparql-proxy/cache'' ''9e107d9d372bb6826bd81d3542a419d6.raw''
     = Inr ''/tmp/sparql-proxy/cache/9/e/9e107d9d372bb6826bd81d3542a419d6.raw''"
proof -
  let ?segs = "[''tmp'', ''sparql-proxy'', ''cache'']"
  let ?key = "''9e107d9d372bb6826bd81d3542a419d6.raw''"
  have h1: "?segs \<noteq> []" by simp
  have h2: "\<forall>s\<in>set ?segs. plain_segment s" by (simp add: plain_segment_def)
  have h3: "''/tmp/sparql-proxy/cache'' = abs_path ?segs \<or> ''/tmp/sparql-proxy/cache'' = join_slash ?segs"
    by (simp add: abs_path_def)
  have h4: "4 \<le> length ?key" by simp
  have h5: "CHR ''/'' \<notin> set ?key" by simp
  have h6: "CHR ''.'' \<notin> set (take 4 ?key)" by simp
  from store_paths [OF h1 h2 h3 h4 h5 h6] show ?thesis by simp
qed

subsection \<open>Reading an entry\<close>











section \<open>Properties of the chunk executor\<close>

subsection \<open>The shard loop\<close>

lemma collected_snoc [simp]:
  "collected (pages @ [page]) = collected pages + length (bindings page)"
  by (simp add: collected_def)

lemma take_drop_extend:
  "take n (drop off rows) @ take l (drop (off + n) rows) = take (n + l) (drop off rows)"
proof -
  have "drop (off + n) rows = drop n (drop off rows)"
    by (simp add: add.commute)
  then show ?thesis by (simp only: take_add)
qed

lemma issue_shards_full_page:
  assumes "collected pages < eff"
    and "be (min chunk (eff - collected pages)) offset = Inr page"
    and "\<not> length (bindings page) < min chunk (eff - collected pages)"
  shows "issue_shards (Suc fuel) be (\<lambda>i. False) chunk eff offset pages
           = issue_shards fuel be (\<lambda>i. False) chunk eff (offset + chunk) (pages @ [page])"
  using assms by (auto simp: Let_def)

lemma issue_shards_short_page:
  assumes "collected pages < eff"
    and "be (min chunk (eff - collected pages)) offset = Inr page"
    and "length (bindings page) < min chunk (eff - collected pages)"
  shows "issue_shards (Suc fuel) be (\<lambda>i. False) chunk eff offset pages = Some (Inr (pages @ [page]))"
  using assms by (auto simp: Let_def)

lemma issue_shards_rows:
  assumes "0 < chunk"
    and "concat (map bindings pages) = take (collected pages) (drop off rows)"
    and "collected pages \<le> eff"
    and "collected pages = eff \<or> offset = off + collected pages"
    and "eff - collected pages < fuel"
  shows "\<exists>more. issue_shards fuel (rows_backend vars rows) (\<lambda>i. False) chunk eff offset pages
                  = Some (Inr (pages @ more))
               \<and> concat (map bindings (pages @ more)) = take eff (drop off rows)
               \<and> (\<forall>p\<in>set more. head p = vars)
               \<and> (collected pages < eff \<longrightarrow> more \<noteq> [])"
  using assms
proof (induction fuel arbitrary: pages offset)
  case 0
  then show ?case by simp
next
  case (Suc fuel)
  let ?n = "collected pages"
  show ?case
  proof (cases "?n < eff")
    case False
    with Suc.prems(3) have "?n = eff" by simp
    with Suc.prems(2) show ?thesis by simp
  next
    case True
    then have off: "offset = off + ?n" using Suc.prems(4) by simp
    let ?limit = "min chunk (eff - ?n)"
    let ?page = "\<lparr>head = vars, bindings = take ?limit (drop offset rows)\<rparr>"
    have limit_pos: "0 < ?limit" using True Suc.prems(1) by simp
    have cat: "concat (map bindings (pages @ [?page])) = take (?n + ?limit) (drop off rows)"
      using Suc.prems(2) off by (simp add: take_drop_extend)
    have be: "rows_backend vars rows ?limit offset = Inr ?page"
      by (simp add: rows_backend_def)
    show ?thesis
    proof (cases "length (bindings ?page) < ?limit")
      case short: True
      then have "length (drop off rows) < ?n + ?limit"
        using off by (simp add: min_def split: if_splits)
      moreover have "?n + ?limit \<le> eff" using True by simp
      ultimately have "length (drop off rows) \<le> ?n + ?limit" and "length (drop off rows) \<le> eff"
        by linarith+
      then have "take (?n + ?limit) (drop off rows) = take eff (drop off rows)"
        by (simp only: take_all)
      with cat have "concat (map bindings (pages @ [?page])) = take eff (drop off rows)"
        by simp
      moreover have "issue_shards (Suc fuel) (rows_backend vars rows) (\<lambda>i. False) chunk eff offset pages
                       = Some (Inr (pages @ [?page]))"
        using issue_shards_short_page [where be = "rows_backend vars rows" and page = ?page
            and pages = pages and eff = eff and chunk = chunk and offset = offset, OF True be short]
        by simp
      ultimately show ?thesis by (intro exI [of _ "[?page]"]) simp
    next
      case full: False
      have "length (bindings ?page) = min (length (drop offset rows)) ?limit" by simp
      then have "length (bindings ?page) \<le> ?limit" by (metis min.cobounded2)
      with full have len: "length (bindings ?page) = ?limit" by linarith
      let ?pages' = "pages @ [?page]"
      have n': "collected ?pages' = ?n + ?limit" using len by simp
      have p2: "concat (map bindings ?pages') = take (collected ?pages') (drop off rows)"
        using cat n' by simp
      have l_le: "?limit \<le> eff - ?n" by simp
      have l_or: "?limit = chunk \<or> ?n + ?limit = eff"
        using True by (simp add: min_def)
      have p3: "collected ?pages' \<le> eff"
        unfolding n' using l_le True by (simp only: less_imp_le Nat.le_diff_conv2 add.commute)
      have p4: "collected ?pages' = eff \<or> offset + chunk = off + collected ?pages'"
        unfolding n' using l_or off by auto
      have "eff - (?n + ?limit) < eff - ?n"
        using limit_pos True by (simp only: diff_less_mono2 less_add_same_cancel1)
      then have p5: "eff - collected ?pages' < fuel"
        unfolding n' using Suc.prems(5) by (simp only: less_Suc_eq_le less_le_trans)
      from Suc.IH [OF Suc.prems(1) p2 p3 p4 p5]
      obtain more where m: "issue_shards fuel (rows_backend vars rows) (\<lambda>i. False) chunk eff (offset + chunk) ?pages'
                  = Some (Inr (?pages' @ more))"
        and c: "concat (map bindings (?pages' @ more)) = take eff (drop off rows)"
        and h: "\<forall>p\<in>set more. head p = vars"
        by blast
      have "issue_shards (Suc fuel) (rows_backend vars rows) (\<lambda>i. False) chunk eff offset pages
              = Some (Inr (pages @ (?page # more)))"
        using issue_shards_full_page [where be = "rows_backend vars rows" and page = ?page
            and pages = pages and eff = eff and chunk = chunk and offset = offset and fuel = fuel,
            OF True be full] m
        by simp
      with c h show ?thesis by (intro exI [of _ "?page # more"]) simp
    qed
  qed
qed

lemma issue_shards_zero_chunk:
  assumes "collected pages = 0" and "0 < eff"
  shows "issue_shards fuel (rows_backend vars rows) (\<lambda>i. False) 0 eff offset pages = None"
  using assms
proof (induction fuel arbitrary: pages offset)
  case 0
  then show ?case by simp
next
  case (Suc fuel)
  let ?page = "\<lparr>head = vars, bindings = take 0 (drop offset rows)\<rparr>"
  have "collected (pages @ [?page]) = 0"
    using Suc.prems(1) by simp
  from Suc.IH [OF this Suc.prems(2), of "offset + 0"] Suc.prems
  show ?case by (simp add: rows_backend_def)
qed

lemma execute_split_rows:
  assumes "0 < mcl" and "effectiveLimit ul ml < fuel"
  shows "execute_split fuel (rows_backend vars rows) (\<lambda>i. False) ml mcl \<lparr>userLimit = ul, userOffset = off\<rparr>
           = Some (Inr \<lparr>merged_head = (if effectiveLimit ul ml = 0 then None else Some vars),
                        merged_bindings = take (effectiveLimit ul ml) (drop off rows)\<rparr>)"
proof (cases "effectiveLimit ul ml = 0")
  case True
  from assms(2) obtain f where "fuel = Suc f" by (cases fuel) simp_all
  with True show ?thesis
    by (simp add: execute_split_def Let_def collected_def merge_def)
next
  case False
  let ?eff = "effectiveLimit ul ml"
  let ?chunk = "min mcl ?eff"
  have c: "0 < ?chunk" using assms(1) False by simp
  have e: "collected ([] :: 'a solution_page list) = 0" by (simp add: collected_def)
  have "\<exists>more. issue_shards fuel (rows_backend vars rows) (\<lambda>i. False) ?chunk ?eff off []
                  = Some (Inr ([] @ more))
               \<and> concat (map bindings ([] @ more)) = take ?eff (drop off rows)
               \<and> (\<forall>p\<in>set more. head p = vars)
               \<and> (collected ([] :: 'a solution_page list) < ?eff \<longrightarrow> more \<noteq> [])"
    using c assms(2) by (intro issue_shards_rows) (simp_all add: e)
  then obtain more where m: "issue_shards fuel (rows_backend vars rows) (\<lambda>i. False) ?chunk ?eff off [] = Some (Inr more)"
    and b: "concat (map bindings more) = take ?eff (drop off rows)"
    and h: "\<forall>p\<in>set more. head p = vars"
    and ne: "more \<noteq> []"
    using False e by auto
  from ne h have "(case more of [] \<Rightarrow> None | p # _ \<Rightarrow> Some (head p)) = Some vars"
    by (cases more) simp_all
  with m b False show ?thesis
    by (simp add: execute_split_def Let_def merge_def)
qed

lemma chunk_execution_scenario:
  "issue_shards 4 (rows_backend [''s''] [''r1'', ''r2'', ''r3'', ''r4'', ''r5'', ''r6'', ''r7''])
       (\<lambda>i. False) (min 2 (effectiveLimit None 5)) (effectiveLimit None 5) 0 []
     = Some (Inr [\<lparr>head = [''s''], bindings = [''r1'', ''r2'']\<rparr>,
                  \<lparr>head = [''s''], bindings = [''r3'', ''r4'']\<rparr>,
                  \<lparr>head = [''s''], bindings = [''r5'']\<rparr>])"
  by (simp add: effectiveLimit_def Let_def collected_def rows_backend_def eval_nat_numeral)

subsection \<open>Completeness of the merge\<close>

text \<open>
  Claim C3, as stated, fails for a query with an \<^verbatim>\<open>OFFSET\<close>: shards start at the user's
  offset, so with \<^verbatim>\<open>LIMIT 10 OFFSET 1\<close> against a backend holding three rows the merged
  response has two bindings, not \<open>min 10 (min 10000 3) = 3\<close>.
\<close>

theorem chunk_merge_offset_counterexample:
  "chunk_executor 2 (rows_backend [''s''] [''r1'', ''r2'', ''r3'']) None never_cancelled True 10000 1000
       (Select \<lparr>userLimit = Some 10, userOffset = 1\<rparr>)
     = Some (Inr \<lparr>merged_head = Some [''s''], merged_bindings = [''r2'', ''r3'']\<rparr>)
   \<and> length [''r2'', ''r3''] \<noteq> min 10 (min 10000 (length [''r1'', ''r2'', ''r3'']))"
  by (simp add: chunk_executor_def execute_split_def effectiveLimit_def Let_def collected_def
      rows_backend_def merge_def numeral_2_eq_2 never_cancelled_def)

text \<open>
  Claim C3, amended. With splitting enabled and a shard size cap of at least one, a
  \<^verbatim>\<open>SELECT\<close> with user limit \<open>L\<close> and user offset \<open>off\<close>, run without cancellation against a
  backend holding \<open>N\<close> rows, ends (the loop needs at most \<open>min L maxLimit + 1\<close> iterations)
  and its merged response holds exactly the rows from position \<open>off\<close> on, in backend order,
  up to \<open>min L maxLimit\<close> of them: \<open>min L (min maxLimit (N - off))\<close> bindings. Its head is the
  first shard's head whenever a shard is issued.
\<close>

theorem chunk_merge_count:
  assumes "0 < mcl" and "min L ml < fuel"
  shows "chunk_executor fuel (rows_backend vars rows) forwarded never_cancelled True ml mcl
             (Select \<lparr>userLimit = Some L, userOffset = off\<rparr>)
           = Some (Inr \<lparr>merged_head = (if min L ml = 0 then None else Some vars),
                        merged_bindings = take (min L ml) (drop off rows)\<rparr>)
         \<and> length (take (min L ml) (drop off rows)) = min L (min ml (length rows - off))"
proof -
  have e: "effectiveLimit (Some L) ml = min L ml" by (simp add: effectiveLimit_def)
  from execute_split_rows [of mcl "Some L" ml fuel vars rows off] assms
  show ?thesis
    by (simp add: chunk_executor_def e min.assoc min.commute min.left_commute never_cancelled_def)
qed

theorem chunk_merge_count_witness:
  "chunk_executor 6 (rows_backend [''s''] [''r1'', ''r2'', ''r3'', ''r4'', ''r5'', ''r6'', ''r7'']) None
       never_cancelled True 5 2 (Select \<lparr>userLimit = Some 6, userOffset = 0\<rparr>)
     = Some (Inr \<lparr>merged_head = Some [''s''],
                  merged_bindings = [''r1'', ''r2'', ''r3'', ''r4'', ''r5'']\<rparr>)"
proof -
  have h1: "0 < (2::nat)" by simp
  have h2: "min (6::nat) 5 < 6" by simp
  from chunk_merge_count [OF h1 h2, of "[''s'']" "[''r1'', ''r2'', ''r3'', ''r4'', ''r5'', ''r6'', ''r7'']" None 0]
  show ?thesis by simp
qed

end
